theory Spec2Isabelle
  imports Main "HOL-Library.Word" "HOL-Library.Sublist"
begin

section \<open>JavaScript strings and values\<close>

text \<open>
  A JavaScript string is a sequence of 16-bit code units. The string literals of
  \<^verbatim>\<open>contact-backend/index.js\<close> are ASCII; \<open>lit\<close> turns a HOL literal into its code units.
\<close>

type_synonym jschar = "16 word"
type_synonym jsstring = "jschar list"

definition lit :: "string \<Rightarrow> jsstring" where
  "lit s = map (\<lambda>c. of_nat (of_char c)) s"

text \<open>
  The code units that ECMAScript counts as WhiteSpace or LineTerminator. The same set is
  what \<^verbatim>\<open>\s\<close> matches in a regular expression without the \<^verbatim>\<open>u\<close> flag and what
  \<^verbatim>\<open>String.prototype.trim\<close> removes.
\<close>

definition isSpace :: "jschar \<Rightarrow> bool" where
  "isSpace c \<longleftrightarrow>
     c \<in> {0x09, 0x0A, 0x0B, 0x0C, 0x0D, 0x20, 0xA0, 0x1680,
          0x2028, 0x2029, 0x202F, 0x205F, 0x3000, 0xFEFF}
     \<or> (0x2000 \<le> c \<and> c \<le> 0x200A)"

text \<open>
  The values a parsed request body is made of. A Number is kept as the text that
  \<^verbatim>\<open>Number.prototype.toString\<close> prints for it (its floating-point arithmetic is never used
  by the handler); an object is the list of its own properties, each name once.
\<close>

datatype jsval =
    JUndefined
  | JNull
  | JBool bool
  | JNum jsstring
  | JStr jsstring
  | JArr "jsval list"
  | JObj "(jsstring \<times> jsval) list"

text \<open>ToBoolean, as \<^verbatim>\<open>!x\<close> and \<^verbatim>\<open>x ? a : b\<close> apply it.\<close>

fun truthy :: "jsval \<Rightarrow> bool" where
  "truthy JUndefined = False"
| "truthy JNull = False"
| "truthy (JBool b) = b"
| "truthy (JNum t) = (t \<noteq> lit ''0'' \<and> t \<noteq> lit ''NaN'')"
| "truthy (JStr s) = (s \<noteq> [])"
| "truthy (JArr xs) = True"
| "truthy (JObj ps) = True"

text \<open>Values thrown inside the handler's \<^verbatim>\<open>try\<close> block and caught by its \<^verbatim>\<open>catch\<close>.\<close>

datatype thrown =
    TypeError
  | MailError "(jsstring \<times> jsval) list"

text \<open>
  Reading a property whose name is neither an array index, \<^verbatim>\<open>length\<close>, nor a name
  on a built-in prototype (the handler reads \<^verbatim>\<open>name\<close>, \<^verbatim>\<open>email\<close>, \<^verbatim>\<open>phone\<close>,
  \<^verbatim>\<open>subject\<close> and \<^verbatim>\<open>message\<close>): \<^verbatim>\<open>undefined\<close> and \<^verbatim>\<open>null\<close> have no properties and
  the read throws; an object gives its own property or \<^verbatim>\<open>undefined\<close>; every other value
  gives \<^verbatim>\<open>undefined\<close>.
\<close>

fun getProp :: "jsval \<Rightarrow> jsstring \<Rightarrow> thrown + jsval" where
  "getProp JUndefined k = Inl TypeError"
| "getProp JNull k = Inl TypeError"
| "getProp (JObj ps) k = (case map_of ps k of None \<Rightarrow> Inr JUndefined | Some v \<Rightarrow> Inr v)"
| "getProp v k = Inr JUndefined"

text \<open>
  ToString, which \<^verbatim>\<open>RegExp.prototype.test\<close> applies to its argument. An array joins its
  elements with commas, \<^verbatim>\<open>undefined\<close> and \<^verbatim>\<open>null\<close> elements printing as nothing. A plain
  object prints as \<^verbatim>\<open>[object Object]\<close>, unless it has an own property \<^verbatim>\<open>toString\<close>:
  parsed data is never callable, so the conversion finds no method that gives a primitive
  and throws a TypeError (\<open>None\<close>).
\<close>

fun ToString :: "jsval \<Rightarrow> jsstring option"
  and join :: "jsval list \<Rightarrow> jsstring option"
  where
  "ToString JUndefined = Some (lit ''undefined'')"
| "ToString JNull = Some (lit ''null'')"
| "ToString (JBool b) = Some (if b then lit ''true'' else lit ''false'')"
| "ToString (JNum t) = Some t"
| "ToString (JStr s) = Some s"
| "ToString (JArr xs) = join xs"
| "ToString (JObj ps) =
     (if lit ''toString'' \<in> fst ` set ps then None else Some (lit ''[object Object]''))"
| "join [] = Some []"
| "join (x # xs) =
     (case (if x = JUndefined \<or> x = JNull then Some [] else ToString x) of
        None \<Rightarrow> None
      | Some a \<Rightarrow>
          (if xs = [] then Some a
           else (case join xs of None \<Rightarrow> None | Some b \<Rightarrow> Some (a @ lit '','' @ b))))"

section \<open>Regular expressions\<close>

text \<open>
  The fragment of regular expressions that the file uses: character classes, sequence and
  the \<^verbatim>\<open>+\<close> quantifier. A pattern anchored with \<^verbatim>\<open>^\<close> and \<^verbatim>\<open>$\<close> (and no \<^verbatim>\<open>m\<close> flag)
  matches when the whole input is in its language, which \<open>matches\<close> decides by
  derivatives.
\<close>

datatype regex =
    Never
  | Empty
  | Cls "jschar \<Rightarrow> bool"
  | Or regex regex
  | Seq regex regex
  | Many regex

definition Plus :: "regex \<Rightarrow> regex" where
  "Plus r = Seq r (Many r)"

fun nullable :: "regex \<Rightarrow> bool" where
  "nullable Never = False"
| "nullable Empty = True"
| "nullable (Cls p) = False"
| "nullable (Or r s) = (nullable r \<or> nullable s)"
| "nullable (Seq r s) = (nullable r \<and> nullable s)"
| "nullable (Many r) = True"

fun deriv :: "jschar \<Rightarrow> regex \<Rightarrow> regex" where
  "deriv c Never = Never"
| "deriv c Empty = Never"
| "deriv c (Cls p) = (if p c then Empty else Never)"
| "deriv c (Or r s) = Or (deriv c r) (deriv c s)"
| "deriv c (Seq r s) =
     (if nullable r then Or (Seq (deriv c r) s) (deriv c s) else Seq (deriv c r) s)"
| "deriv c (Many r) = Seq (deriv c r) (Many r)"

fun matches :: "regex \<Rightarrow> jsstring \<Rightarrow> bool" where
  "matches r [] = nullable r"
| "matches r (c # s) = matches (deriv c r) s"

text \<open>\<^verbatim>\<open>regex.test(v)\<close> for an anchored pattern without flags: the argument is converted
  with ToString first.\<close>

definition test :: "regex \<Rightarrow> jsval \<Rightarrow> thrown + bool" where
  "test r v = (case ToString v of None \<Rightarrow> Inl TypeError | Some s \<Rightarrow> Inr (matches r s))"

text \<open>\<^verbatim>\<open>s.replace(/[...]/g, rep)\<close> for a pattern that is one character class: every code
  unit of the class is replaced by \<open>rep\<close> (which has no \<^verbatim>\<open>$\<close> pattern in this file).\<close>

fun replaceAll :: "(jschar \<Rightarrow> bool) \<Rightarrow> jsstring \<Rightarrow> jsstring \<Rightarrow> jsstring" where
  "replaceAll p rep [] = []"
| "replaceAll p rep (c # s) = (if p c then rep else [c]) @ replaceAll p rep s"

text \<open>\<^verbatim>\<open>String.prototype.trim\<close>: white space is removed from both ends.\<close>

definition trim :: "jsstring \<Rightarrow> jsstring" where
  "trim s = rev (dropWhile isSpace (rev (dropWhile isSpace s)))"

section \<open>The helpers of the contact form route\<close>

text \<open>\<^verbatim>\<open>const emailRegex = /^[^\s@]+@[^\s@]+\.[^\s@]+$/\<close>\<close>

definition emailRegex :: regex where
  "emailRegex =
     Seq (Plus (Cls (\<lambda>c. \<not> isSpace c \<and> c \<noteq> 0x40)))
    (Seq (Cls (\<lambda>c. c = 0x40))
    (Seq (Plus (Cls (\<lambda>c. \<not> isSpace c \<and> c \<noteq> 0x40)))
    (Seq (Cls (\<lambda>c. c = 0x2E))
         (Plus (Cls (\<lambda>c. \<not> isSpace c \<and> c \<noteq> 0x40))))))"

definition isValidEmail :: "jsval \<Rightarrow> thrown + bool" where
  "isValidEmail email = test emailRegex email"

text \<open>
  \<^verbatim>\<open>if (typeof input !== "string") return ""; return input.trim().replace(/[<>]/g, "");\<close>
\<close>

fun sanitizeInput :: "jsval \<Rightarrow> jsstring" where
  "sanitizeInput (JStr input) = replaceAll (\<lambda>c. c = 0x3C \<or> c = 0x3E) [] (trim input)"
| "sanitizeInput v = []"

section \<open>The contact form route\<close>

text \<open>
  What the route reads from outside: \<^verbatim>\<open>process.env.EMAIL_USER\<close> (a string, or
  \<^verbatim>\<open>undefined\<close> when the variable is not set) and the two results of
  \<^verbatim>\<open>new Date().toLocaleString()\<close>, one for each body.
\<close>

record env =
  EMAIL_USER :: jsval
  now_text :: jsstring
  now_html :: jsstring

text \<open>The object \<^verbatim>\<open>sanitizedData\<close>.\<close>

record sanitizedData =
  s_name :: jsstring
  s_email :: jsstring
  s_phone :: jsstring
  s_subject :: jsstring
  s_message :: jsstring

text \<open>The argument of \<^verbatim>\<open>sendEmail\<close>.\<close>

record mail =
  mail_to :: jsval
  mail_subject :: jsstring
  mail_text :: jsstring
  mail_html :: jsstring

text \<open>
  \<^verbatim>\<open>sendEmail\<close> is required from \<^verbatim>\<open>./sendEmail\<close> and is a parameter of the route here.
  The promise it returns is awaited: it resolves, or it rejects with an error object,
  given by the properties that can be read from it.
\<close>

datatype outcome =
    Resolved
  | Rejected "(jsstring \<times> jsval) list"

text \<open>\<^verbatim>\<open>res.status(n).json({success: b, message: m})\<close>\<close>

record response =
  res_status :: nat
  res_success :: bool
  res_message :: jsstring

text \<open>What one request does: the call of \<^verbatim>\<open>sendEmail\<close>, if any, and the response.\<close>

record result =
  sent :: "mail option"
  reply :: response

text \<open>\<^verbatim>\<open>a || b\<close> on strings: \<open>a\<close> unless it is empty.\<close>

definition orElse :: "jsstring \<Rightarrow> jsstring \<Rightarrow> jsstring" where
  "orElse a b = (if a \<noteq> [] then a else b)"

definition textBody :: "sanitizedData \<Rightarrow> jsstring \<Rightarrow> jsstring" where
  "textBody d now =
     lit ''\<newline>Contact Form Submission\<newline>\<newline>Name: '' @ s_name d
     @ lit ''\<newline>Email: '' @ s_email d
     @ lit ''\<newline>Phone: '' @ orElse (s_phone d) (lit ''Not provided'')
     @ lit ''\<newline>Subject: '' @ s_subject d
     @ lit ''\<newline>\<newline>Message:\<newline>'' @ s_message d
     @ lit ''\<newline>\<newline>---\<newline>Submitted at: '' @ now
     @ lit ''\<newline>      ''"

definition htmlBody :: "sanitizedData \<Rightarrow> jsstring \<Rightarrow> jsstring" where
  "htmlBody d now =
     lit ''\<newline>        <h2>Contact Form Submission</h2>''
     @ lit ''\<newline>        <p><strong>Name:</strong> '' @ s_name d @ lit ''</p>''
     @ lit ''\<newline>        <p><strong>Email:</strong> '' @ s_email d @ lit ''</p>''
     @ lit ''\<newline>        <p><strong>Phone:</strong> ''
         @ orElse (s_phone d) (lit ''Not provided'') @ lit ''</p>''
     @ lit ''\<newline>        <p><strong>Subject:</strong> '' @ s_subject d @ lit ''</p>''
     @ lit ''\<newline>        <h3>Message:</h3>''
     @ lit ''\<newline>        <p>''
         @ replaceAll (\<lambda>c. c = 0x0A) (lit ''<br>'') (s_message d) @ lit ''</p>''
     @ lit ''\<newline>        <hr>''
     @ lit ''\<newline>        <p><small>Submitted at: '' @ now @ lit ''</small></p>''
     @ lit ''\<newline>      ''"

definition mailOf :: "env \<Rightarrow> sanitizedData \<Rightarrow> mail" where
  "mailOf E d =
     \<lparr> mail_to = EMAIL_USER E,
       mail_subject = lit ''Customer Form Apllication: '' @ s_subject d,
       mail_text = textBody d (now_text E),
       mail_html = htmlBody d (now_html E) \<rparr>"

text \<open>
  \<^verbatim>\<open>const { name, email, phone, subject, message } = req.body;\<close> The five reads, in
  order; the first one throws when the body is \<^verbatim>\<open>undefined\<close> or \<^verbatim>\<open>null\<close>.
\<close>

definition andThen :: "thrown + 'a \<Rightarrow> ('a \<Rightarrow> thrown + 'b) \<Rightarrow> thrown + 'b" where
  "andThen x f = (case x of Inl e \<Rightarrow> Inl e | Inr a \<Rightarrow> f a)"

definition destructure ::
  "jsval \<Rightarrow> thrown + (jsval \<times> jsval \<times> jsval \<times> jsval \<times> jsval)" where
  "destructure body =
     andThen (getProp body (lit ''name'')) (\<lambda>name.
     andThen (getProp body (lit ''email'')) (\<lambda>email.
     andThen (getProp body (lit ''phone'')) (\<lambda>phone.
     andThen (getProp body (lit ''subject'')) (\<lambda>subject.
     andThen (getProp body (lit ''message'')) (\<lambda>message.
       Inr (name, email, phone, subject, message))))))"

text \<open>The \<^verbatim>\<open>catch (err)\<close> block: \<^verbatim>\<open>err.code === "EAUTH"\<close> picks the message. A TypeError
  has no \<^verbatim>\<open>code\<close>.\<close>

definition errorCode :: "thrown \<Rightarrow> jsval" where
  "errorCode err =
     (case err of
        TypeError \<Rightarrow> JUndefined
      | MailError ps \<Rightarrow> (case map_of ps (lit ''code'') of None \<Rightarrow> JUndefined | Some v \<Rightarrow> v))"

definition catchBlock :: "thrown \<Rightarrow> response" where
  "catchBlock err =
     (let errorMessage =
        (if errorCode err = JStr (lit ''EAUTH'')
         then lit ''Authentication failed. Please check email credentials.''
         else lit ''Email sending failed. Please try again later.'')
      in \<lparr> res_status = 500, res_success = False, res_message = errorMessage \<rparr>)"

definition missingFields :: response where
  "missingFields =
     \<lparr> res_status = 400, res_success = False,
       res_message = lit ''Missing required fields: name, email, subject, and message are required.'' \<rparr>"

definition invalidEmail :: response where
  "invalidEmail = \<lparr> res_status = 400, res_success = False, res_message = lit ''Invalid email format.'' \<rparr>"

definition emailSent :: response where
  "emailSent = \<lparr> res_status = 200, res_success = True, res_message = lit ''Email sent successfully'' \<rparr>"

definition sanitize :: "jsval \<Rightarrow> jsval \<Rightarrow> jsval \<Rightarrow> jsval \<Rightarrow> jsval \<Rightarrow> sanitizedData" where
  "sanitize name email phone subject message =
     \<lparr> s_name = sanitizeInput name,
       s_email = sanitizeInput email,
       s_phone = (if truthy phone then sanitizeInput phone else []),
       s_subject = sanitizeInput subject,
       s_message = sanitizeInput message \<rparr>"

text \<open>\<^verbatim>\<open>app.post("/send", async (req, res) => { ... })\<close> on \<^verbatim>\<open>req.body\<close>.\<close>

definition post_send :: "env \<Rightarrow> (mail \<Rightarrow> outcome) \<Rightarrow> jsval \<Rightarrow> result" where
  "post_send E sendEmail body =
     (case destructure body of
        Inl err \<Rightarrow> \<lparr> sent = None, reply = catchBlock err \<rparr>
      | Inr (name, email, phone, subject, message) \<Rightarrow>
          if \<not> truthy name \<or> \<not> truthy email \<or> \<not> truthy subject \<or> \<not> truthy message
          then \<lparr> sent = None, reply = missingFields \<rparr>
          else
            (case isValidEmail email of
               Inl err \<Rightarrow> \<lparr> sent = None, reply = catchBlock err \<rparr>
             | Inr valid \<Rightarrow>
                 if \<not> valid then \<lparr> sent = None, reply = invalidEmail \<rparr>
                 else
                   (let m = mailOf E (sanitize name email phone subject message)
                    in case sendEmail m of
                         Resolved \<Rightarrow> \<lparr> sent = Some m, reply = emailSent \<rparr>
                       | Rejected ps \<Rightarrow>
                           \<lparr> sent = Some m, reply = catchBlock (MailError ps) \<rparr>)))"

section \<open>Notions of the specification\<close>

text \<open>A string with no white space at either end.\<close>

definition bare :: "jsstring \<Rightarrow> bool" where
  "bare t \<longleftrightarrow> t = [] \<or> (\<not> isSpace (hd t) \<and> \<not> isSpace (last t))"

text \<open>One or more characters, none of them white space or \<^verbatim>\<open>@\<close>.\<close>

definition part :: "jsstring \<Rightarrow> bool" where
  "part w \<longleftrightarrow> w \<noteq> [] \<and> list_all (\<lambda>c. \<not> isSpace c \<and> c \<noteq> 0x40) w"

text \<open>The shape \<^verbatim>\<open>local@domain.tld\<close> of the specification.\<close>

definition email_shape :: "jsstring \<Rightarrow> bool" where
  "email_shape s \<longleftrightarrow>
     (\<exists>local domain tld.
        s = local @ [0x40] @ domain @ [0x2E] @ tld \<and> part local \<and> part domain \<and> part tld)"

text \<open>The language of a regular expression, which \<open>matches\<close> is proved to decide.\<close>

inductive_set star :: "jsstring set \<Rightarrow> jsstring set" for L :: "jsstring set" where
  star_nil: "[] \<in> star L"
| star_app: "u \<in> L \<Longrightarrow> v \<in> star L \<Longrightarrow> u @ v \<in> star L"

fun lang :: "regex \<Rightarrow> jsstring set" where
  "lang Never = {}"
| "lang Empty = {[]}"
| "lang (Cls p) = {[c] | c. p c}"
| "lang (Or r s) = lang r \<union> lang s"
| "lang (Seq r s) = {u @ v | u v. u \<in> lang r \<and> v \<in> lang s}"
| "lang (Many r) = star (lang r)"

text \<open>The fields of a body that the route reads (when the body has properties at all).\<close>

definition field :: "jsval \<Rightarrow> string \<Rightarrow> jsval" where
  "field body k = (case getProp body (lit k) of Inl e \<Rightarrow> JUndefined | Inr v \<Rightarrow> v)"

text \<open>A request that passes both checks of the route.\<close>

definition validated :: "jsval \<Rightarrow> bool" where
  "validated body \<longleftrightarrow>
     truthy (field body ''name'') \<and> truthy (field body ''email'')
     \<and> truthy (field body ''subject'') \<and> truthy (field body ''message'')
     \<and> isValidEmail (field body ''email'') = Inr True"

definition sanitized_of :: "jsval \<Rightarrow> sanitizedData" where
  "sanitized_of body =
     sanitize (field body ''name'') (field body ''email'') (field body ''phone'')
       (field body ''subject'') (field body ''message'')"

section \<open>Example requests\<close>

text \<open>Scenarios A, B and D of the specification, requests with a blank name, with a blank email and
  with brackets in the email, two errors of the mail transport, and a configuration to run
  them in.\<close>

definition scenarioA :: jsval where
  "scenarioA =
     JObj [(lit ''name'', JStr (lit ''Jo'')), (lit ''email'', JStr (lit ''jo@ex.com'')),
           (lit ''subject'', JStr (lit ''Hi'')), (lit ''message'', JStr (lit ''Hello''))]"

definition scenarioB :: jsval where
  "scenarioB =
     JObj [(lit ''name'', JStr (lit ''Jo'')), (lit ''email'', JStr (lit ''not-an-email'')),
           (lit ''subject'', JStr (lit ''Hi'')), (lit ''message'', JStr (lit ''Hello''))]"

definition exampleEnv :: env where
  "exampleEnv =
     \<lparr> EMAIL_USER = JStr (lit ''owner@example.org''),
       now_text = lit ''1/2/2025, 3:04:05 PM'', now_html = lit ''1/2/2025, 3:04:05 PM'' \<rparr>"

definition scenarioD :: jsval where
  "scenarioD =
     JObj [(lit ''name'', JStr (lit ''<script>'')), (lit ''email'', JStr (lit ''a@b.com'')),
           (lit ''subject'', JStr (lit ''s'')), (lit ''message'', JStr (lit ''m''))]"

definition blankName :: jsval where
  "blankName =
     JObj [(lit ''name'', JStr (lit '' '')), (lit ''email'', JStr (lit ''jo@ex.com'')),
           (lit ''subject'', JStr (lit ''Hi'')), (lit ''message'', JStr (lit ''Hello''))]"

definition blankEmail :: jsval where
  "blankEmail =
     JObj [(lit ''name'', JStr (lit ''Jo'')), (lit ''email'', JStr (lit '' '')),
           (lit ''subject'', JStr (lit ''Hi'')), (lit ''message'', JStr (lit ''Hello''))]"

definition bracketEmail :: jsval where
  "bracketEmail =
     JObj [(lit ''name'', JStr (lit ''Jo'')), (lit ''email'', JStr (lit ''<>@b.c'')),
           (lit ''subject'', JStr (lit ''Hi'')), (lit ''message'', JStr (lit ''Hello''))]"

definition authError :: "(jsstring \<times> jsval) list" where
  "authError =
     [(lit ''code'', JStr (lit ''EAUTH'')), (lit ''message'', JStr (lit ''Invalid login''))]"

definition connectionError :: "(jsstring \<times> jsval) list" where
  "connectionError =
     [(lit ''code'', JStr (lit ''ECONNECTION'')), (lit ''message'', JStr (lit ''timeout''))]"

section \<open>Trimming and replacing\<close>

lemma replaceAll_filter:
  "replaceAll p [] s = filter (\<lambda>c. \<not> p c) s"
  by (induction s) auto

lemma rev_end_split:
  "xs = rev (dropWhile P (rev xs)) @ rev (takeWhile P (rev xs))"
  by (metis rev_append rev_rev_ident takeWhile_dropWhile_id)

lemma trim_split:
  "\<exists>l r. s = l @ trim s @ r \<and> list_all isSpace l \<and> list_all isSpace r"
proof -
  let ?a = "takeWhile isSpace s"
  let ?m = "dropWhile isSpace s"
  let ?b = "rev (takeWhile isSpace (rev ?m))"
  have m: "?m = trim s @ ?b"
    unfolding trim_def by (rule rev_end_split)
  have "s = ?a @ ?m" by simp
  with m have "s = ?a @ trim s @ ?b" by simp
  moreover have "list_all isSpace ?a"
    by (simp add: list_all_iff) (meson set_takeWhileD)
  moreover have "list_all isSpace ?b"
    by (simp add: list_all_iff) (meson set_takeWhileD)
  ultimately show ?thesis by blast
qed

lemma bare_trim: "bare (trim s)"
proof (cases "trim s = []")
  case True
  then show ?thesis by (simp add: bare_def)
next
  case False
  let ?m = "dropWhile isSpace s"
  let ?d = "dropWhile isSpace (rev ?m)"
  from False have d: "?d \<noteq> []" by (simp add: trim_def)
  then have "\<not> isSpace (hd ?d)" by (rule hd_dropWhile)
  with d have l: "\<not> isSpace (last (trim s))"
    by (simp add: trim_def last_rev)
  from d have m: "?m \<noteq> []" by fastforce
  then have hm: "\<not> isSpace (hd ?m)" by (rule hd_dropWhile)
  have "?m = trim s @ rev (takeWhile isSpace (rev ?m))"
    unfolding trim_def by (rule rev_end_split)
  with False have "hd ?m = hd (trim s)" by (metis hd_append2)
  with hm l False show ?thesis by (simp add: bare_def)
qed

lemma trim_bare: "bare t \<Longrightarrow> trim t = t"
proof (cases "t = []")
  case True
  then show ?thesis by (simp add: trim_def)
next
  case False
  assume "bare t"
  with False have h: "\<not> isSpace (hd t)" and l: "\<not> isSpace (last t)"
    by (simp_all add: bare_def)
  from False h have 1: "dropWhile isSpace t = t"
    by (cases t) auto
  from False l have "\<not> isSpace (hd (rev t))" by (simp add: hd_rev)
  with False have 2: "dropWhile isSpace (rev t) = rev t"
    by (cases "rev t") auto
  from 1 2 show ?thesis by (simp add: trim_def)
qed

lemma trim_trim: "trim (trim s) = trim s"
  by (rule trim_bare) (rule bare_trim)

lemma bare_filter:
  assumes "bare t" "t \<noteq> []" "p (hd t)" "p (last t)"
  shows "bare (filter p t)"
proof -
  from assms have h: "\<not> isSpace (hd t)" and l: "\<not> isSpace (last t)"
    by (simp_all add: bare_def)
  from assms(2,3) have hf: "hd (filter p t) = hd t" by (cases t) auto
  from assms(2,4) have lf: "last (filter p t) = last t"
    by (cases t rule: rev_cases) auto
  from h l hf lf show ?thesis by (simp add: bare_def)
qed

section \<open>The matcher decides the language\<close>

lemma nullable_lang: "nullable r \<longleftrightarrow> [] \<in> lang r"
  by (induction r) (auto intro: star_nil)

lemma star_cons_split:
  assumes "x \<in> star L" "x = c # w"
  shows "\<exists>u v. w = u @ v \<and> c # u \<in> L \<and> v \<in> star L"
  using assms
proof (induction arbitrary: w rule: star.induct)
  case star_nil
  then show ?case by simp
next
  case (star_app u v)
  show ?case
  proof (cases u)
    case Nil
    with star_app show ?thesis by simp
  next
    case (Cons a u')
    with star_app.prems have "a = c" "w = u' @ v" by simp_all
    with Cons star_app.hyps show ?thesis by blast
  qed
qed

lemma star_cons: "c # w \<in> star L \<longleftrightarrow> (\<exists>u v. w = u @ v \<and> c # u \<in> L \<and> v \<in> star L)"
proof
  assume "c # w \<in> star L"
  then show "\<exists>u v. w = u @ v \<and> c # u \<in> L \<and> v \<in> star L"
    by (rule star_cons_split) simp
next
  assume "\<exists>u v. w = u @ v \<and> c # u \<in> L \<and> v \<in> star L"
  then obtain u v where "w = u @ v" "c # u \<in> L" "v \<in> star L" by blast
  then show "c # w \<in> star L"
    using star_app [of "c # u" L v] by simp
qed

lemma deriv_lang: "w \<in> lang (deriv c r) \<longleftrightarrow> c # w \<in> lang r"
proof (induction r arbitrary: w)
  case (Seq r s)
  show ?case
  proof
    assume "w \<in> lang (deriv c (Seq r s))"
    then consider (l) u v where "w = u @ v" "u \<in> lang (deriv c r)" "v \<in> lang s"
      | (r) "nullable r" "w \<in> lang (deriv c s)"
      by (auto split: if_splits)
    then show "c # w \<in> lang (Seq r s)"
    proof cases
      case l
      then have "c # u \<in> lang r" using Seq.IH(1) by simp
      with l have "c # w = (c # u) @ v \<and> c # u \<in> lang r \<and> v \<in> lang s" by simp
      then show ?thesis by (simp del: append_Cons) blast
    next
      case r
      then have "[] \<in> lang r" "c # w \<in> lang s"
        using Seq.IH(2) by (simp_all add: nullable_lang)
      then have "c # w = [] @ (c # w) \<and> [] \<in> lang r \<and> c # w \<in> lang s" by simp
      then show ?thesis by (simp del: append_Nil) blast
    qed
  next
    assume "c # w \<in> lang (Seq r s)"
    then obtain u v where uv: "c # w = u @ v" "u \<in> lang r" "v \<in> lang s" by auto
    show "w \<in> lang (deriv c (Seq r s))"
    proof (cases u)
      case Nil
      with uv have "nullable r" "w \<in> lang (deriv c s)"
        using Seq.IH(2) by (simp_all add: nullable_lang)
      then show ?thesis by simp
    next
      case (Cons a u')
      with uv have "w = u' @ v" "u' \<in> lang (deriv c r)"
        using Seq.IH(1) by simp_all
      with uv(3) show ?thesis by auto
    qed
  qed
next
  case (Many r)
  show ?case
  proof
    assume "w \<in> lang (deriv c (Many r))"
    then obtain u v where "w = u @ v" "u \<in> lang (deriv c r)" "v \<in> star (lang r)" by auto
    then have "w = u @ v \<and> c # u \<in> lang r \<and> v \<in> star (lang r)"
      using Many.IH by simp
    then show "c # w \<in> lang (Many r)"
      by (simp only: lang.simps star_cons) blast
  next
    assume "c # w \<in> lang (Many r)"
    then obtain u v where "w = u @ v" "c # u \<in> lang r" "v \<in> star (lang r)"
      by (auto simp: star_cons)
    then show "w \<in> lang (deriv c (Many r))"
      using Many.IH by auto
  qed
qed auto

lemma matches_lang: "matches r w \<longleftrightarrow> w \<in> lang r"
  by (induction w arbitrary: r) (simp_all add: nullable_lang deriv_lang)

lemma star_cls_all:
  assumes "w \<in> star {[c] | c. p c}"
  shows "list_all p w"
  using assms by (induction rule: star.induct) auto

lemma all_star_cls: "list_all p w \<Longrightarrow> w \<in> star {[c] | c. p c}"
proof (induction w)
  case Nil
  show ?case by (rule star_nil)
next
  case (Cons a w)
  then have "[a] \<in> {[c] | c. p c}" "w \<in> star {[c] | c. p c}" by simp_all
  then have "[a] @ w \<in> star {[c] | c. p c}" by (rule star_app)
  then show ?case by simp
qed

lemma lang_Plus_Cls: "w \<in> lang (Plus (Cls p)) \<longleftrightarrow> w \<noteq> [] \<and> list_all p w"
proof
  assume "w \<in> lang (Plus (Cls p))"
  then obtain c v where "w = [c] @ v" "p c" "v \<in> star {[c] | c. p c}"
    by (auto simp: Plus_def)
  then show "w \<noteq> [] \<and> list_all p w"
    using star_cls_all [of v p] by simp
next
  assume a: "w \<noteq> [] \<and> list_all p w"
  then obtain c v where w: "w = c # v" by (cases w) auto
  with a have "p c" "v \<in> star {[c] | c. p c}"
    by (simp_all add: all_star_cls)
  with w have "w = [c] @ v \<and> [c] \<in> lang (Cls p) \<and> v \<in> lang (Many (Cls p))" by simp
  then show "w \<in> lang (Plus (Cls p))"
    unfolding Plus_def lang.simps(5) by blast
qed

lemma lang_part: "w \<in> lang (Plus (Cls (\<lambda>c. \<not> isSpace c \<and> c \<noteq> 0x40))) \<longleftrightarrow> part w"
  by (simp only: lang_Plus_Cls part_def)

lemma lang_one: "w \<in> lang (Cls (\<lambda>c. c = a)) \<longleftrightarrow> w = [a]"
  by auto

lemma lang_Seq: "w \<in> lang (Seq r s) \<longleftrightarrow> (\<exists>u v. w = u @ v \<and> u \<in> lang r \<and> v \<in> lang s)"
  by auto

lemma matches_emailRegex: "matches emailRegex s \<longleftrightarrow> email_shape s"
  unfolding matches_lang emailRegex_def email_shape_def
  by (simp only: lang_Seq lang_part lang_one) blast

section \<open>The route, case by case\<close>

lemma isValidEmail_ToString:
  "isValidEmail v = (case ToString v of None \<Rightarrow> Inl TypeError | Some s \<Rightarrow> Inr (email_shape s))"
  by (simp add: isValidEmail_def test_def matches_emailRegex split: option.splits)

lemma truthy_field_body: "truthy (field body k) \<Longrightarrow> body \<noteq> JUndefined \<and> body \<noteq> JNull"
  by (cases body) (simp_all add: field_def)

lemma destructure_fields:
  "body \<noteq> JUndefined \<Longrightarrow> body \<noteq> JNull \<Longrightarrow>
   destructure body =
     Inr (field body ''name'', field body ''email'', field body ''phone'',
          field body ''subject'', field body ''message'')"
  by (cases body) (simp_all add: destructure_def andThen_def field_def split: option.splits)

lemma destructure_throws:
  "body = JUndefined \<or> body = JNull \<Longrightarrow> destructure body = Inl TypeError"
  by (auto simp: destructure_def andThen_def)


lemma post_send_present:
  assumes "truthy (field body ''name'')" "truthy (field body ''email'')"
    "truthy (field body ''subject'')" "truthy (field body ''message'')"
  shows "post_send E sendEmail body =
     (case isValidEmail (field body ''email'') of
        Inl err \<Rightarrow> \<lparr> sent = None, reply = catchBlock err \<rparr>
      | Inr valid \<Rightarrow>
          if \<not> valid then \<lparr> sent = None, reply = invalidEmail \<rparr>
          else
            (case sendEmail (mailOf E (sanitized_of body)) of
               Resolved \<Rightarrow> \<lparr> sent = Some (mailOf E (sanitized_of body)), reply = emailSent \<rparr>
             | Rejected ps \<Rightarrow>
                 \<lparr> sent = Some (mailOf E (sanitized_of body)),
                   reply = catchBlock (MailError ps) \<rparr>))"
proof -
  from assms(1) have b: "body \<noteq> JUndefined" "body \<noteq> JNull"
    using truthy_field_body by blast+
  show ?thesis
    using assms
    by (simp add: post_send_def destructure_fields [OF b] sanitized_of_def Let_def
        split: sum.splits outcome.splits)
qed

lemma post_send_validated:
  assumes "validated body"
  shows "post_send E sendEmail body =
     (case sendEmail (mailOf E (sanitized_of body)) of
        Resolved \<Rightarrow> \<lparr> sent = Some (mailOf E (sanitized_of body)), reply = emailSent \<rparr>
      | Rejected ps \<Rightarrow>
          \<lparr> sent = Some (mailOf E (sanitized_of body)), reply = catchBlock (MailError ps) \<rparr>)"
proof -
  from assms have t: "truthy (field body ''name'')" "truthy (field body ''email'')"
    "truthy (field body ''subject'')" "truthy (field body ''message'')"
    and v: "isValidEmail (field body ''email'') = Inr True"
    by (simp_all add: validated_def)
  show ?thesis by (simp add: post_send_present [OF t] v)
qed

lemma sent_only_validated:
  "sent (post_send E sendEmail body) = None \<or> validated body"
proof (cases "body = JUndefined \<or> body = JNull")
  case True
  then show ?thesis by (simp add: post_send_def destructure_throws)
next
  case False
  then have b: "body \<noteq> JUndefined" "body \<noteq> JNull" by simp_all
  show ?thesis
    using b
    by (simp add: post_send_def destructure_fields [OF b] validated_def Let_def
        split: sum.splits outcome.splits)
qed

lemma validated_scenarioA: "validated scenarioA"
  by (simp add: validated_def field_def scenarioA_def isValidEmail_def test_def emailRegex_def
      Plus_def lit_def isSpace_def)

lemma validated_scenarioD: "validated scenarioD"
  by (simp add: validated_def field_def scenarioD_def isValidEmail_def test_def emailRegex_def
      Plus_def lit_def isSpace_def)

lemma validated_blankName: "validated blankName"
  by (simp add: validated_def field_def blankName_def isValidEmail_def test_def emailRegex_def
      Plus_def lit_def isSpace_def)

lemma validated_bracketEmail: "validated bracketEmail"
  by (simp add: validated_def field_def bracketEmail_def isValidEmail_def test_def emailRegex_def
      Plus_def lit_def isSpace_def)

lemma sent_validated:
  "validated body \<Longrightarrow> sent (post_send E sendEmail body) = Some (mailOf E (sanitized_of body))"
  by (simp add: post_send_validated split: outcome.splits)

lemma sanitizeInput_filter:
  "sanitizeInput (JStr s) = filter (\<lambda>c. c \<noteq> 0x3C \<and> c \<noteq> 0x3E) (trim s)"
  by (simp add: replaceAll_filter)

lemma trim_blank: "list_all isSpace s \<Longrightarrow> trim s = []"
proof -
  assume "list_all isSpace s"
  then have d: "dropWhile isSpace s = []" by (induction s) auto
  show ?thesis unfolding trim_def d by simp
qed

lemma blank_not_email_shape:
  assumes "list_all isSpace s"
  shows "\<not> email_shape s"
proof
  assume "email_shape s"
  then obtain l d t where s: "s = l @ [0x40] @ d @ [0x2E] @ t" and l: "part l"
    unfolding email_shape_def by blast
  from l obtain c where "c \<in> set l" "\<not> isSpace c"
    by (cases l) (auto simp: part_def)
  with s assms show False by (auto simp: list_all_iff)
qed

section \<open>The claims\<close>




text \<open>
  Claim C2. On a string, \<^verbatim>\<open>isValidEmail\<close> is true exactly for the shape
  \<^verbatim>\<open>local@domain.tld\<close>, each part one or more characters that are neither white space
  nor \<^verbatim>\<open>@\<close>. A request whose required fields are present and whose \<^verbatim>\<open>email\<close>, read as
  a string, is not of that shape is answered 400 with \<^verbatim>\<open>Invalid email format.\<close>, whatever
  the other fields are.
\<close>

theorem isValidEmail_shape:
  "isValidEmail (JStr s) = Inr (email_shape s)
   \<and> (truthy (field body ''name'') \<and> truthy (field body ''email'')
        \<and> truthy (field body ''subject'') \<and> truthy (field body ''message'')
        \<and> ToString (field body ''email'') = Some t \<and> \<not> email_shape t
      \<longrightarrow> post_send E sendEmail body =
            \<lparr> sent = None,
              reply = \<lparr> res_status = 400, res_success = False,
                        res_message = lit ''Invalid email format.'' \<rparr> \<rparr>)"
proof -
  have 1: "isValidEmail (JStr s) = Inr (email_shape s)"
    by (simp add: isValidEmail_ToString)
  have 2: "post_send E sendEmail body =
            \<lparr> sent = None,
              reply = \<lparr> res_status = 400, res_success = False,
                        res_message = lit ''Invalid email format.'' \<rparr> \<rparr>"
    if t: "truthy (field body ''name'')" "truthy (field body ''email'')"
        "truthy (field body ''subject'')" "truthy (field body ''message'')"
      and e: "ToString (field body ''email'') = Some t" "\<not> email_shape t"
  proof -
    from e have "isValidEmail (field body ''email'') = Inr False"
      by (simp add: isValidEmail_ToString)
    then show ?thesis
      by (simp add: post_send_present [OF t] invalidEmail_def)
  qed
  from 1 2 show ?thesis by blast
qed

theorem isValidEmail_shape_witness:
  "isValidEmail (JStr (lit ''jo@ex.com'')) = Inr True
   \<and> \<not> email_shape (lit ''not-an-email'')
   \<and> post_send exampleEnv (\<lambda>m. Resolved) scenarioB =
       \<lparr> sent = None,
         reply = \<lparr> res_status = 400, res_success = False,
                   res_message = lit ''Invalid email format.'' \<rparr> \<rparr>"
proof -
  have v: "isValidEmail (JStr (lit ''jo@ex.com'')) = Inr True"
    by (simp add: isValidEmail_def test_def emailRegex_def Plus_def lit_def isSpace_def)
  have "isValidEmail (JStr (lit ''not-an-email'')) = Inr False"
    by (simp add: isValidEmail_def test_def emailRegex_def Plus_def lit_def isSpace_def)
  with isValidEmail_shape [of "lit ''not-an-email''"]
  have n: "\<not> email_shape (lit ''not-an-email'')" by simp
  have f: "truthy (field scenarioB ''name'')" "truthy (field scenarioB ''email'')"
    "truthy (field scenarioB ''subject'')" "truthy (field scenarioB ''message'')"
    "ToString (field scenarioB ''email'') = Some (lit ''not-an-email'')"
    by (simp_all add: field_def scenarioB_def lit_def)
  from v n f isValidEmail_shape [of _ scenarioB "lit ''not-an-email''" exampleEnv "\<lambda>m. Resolved"]
  show ?thesis by simp
qed

text \<open>
  Claim C3, as amended. \<^verbatim>\<open>sanitizeInput\<close> gives the empty string for a value that is not
  a string. For a string it trims the white space at both ends and then removes every
  \<^verbatim>\<open><\<close> and \<^verbatim>\<open>>\<close>: the result has neither character, and it has no white space at its
  ends when the trimmed input neither begins nor ends with one of the two characters.
\<close>

theorem sanitizeInput_trims_then_strips:
  "(case v of
      JStr s \<Rightarrow>
        sanitizeInput v = filter (\<lambda>c. c \<noteq> 0x3C \<and> c \<noteq> 0x3E) (trim s)
        \<and> (\<exists>l r. s = l @ trim s @ r \<and> list_all isSpace l \<and> list_all isSpace r)
        \<and> bare (trim s)
        \<and> 0x3C \<notin> set (sanitizeInput v) \<and> 0x3E \<notin> set (sanitizeInput v)
        \<and> (trim s \<noteq> [] \<and> hd (trim s) \<notin> {0x3C, 0x3E} \<and> last (trim s) \<notin> {0x3C, 0x3E}
             \<longrightarrow> bare (sanitizeInput v))
    | _ \<Rightarrow> sanitizeInput v = [])"
proof (cases v)
  case (JStr s)
  have 1: "sanitizeInput (JStr s) = filter (\<lambda>c. c \<noteq> 0x3C \<and> c \<noteq> 0x3E) (trim s)"
    by (rule sanitizeInput_filter)
  have 2: "\<exists>l r. s = l @ trim s @ r \<and> list_all isSpace l \<and> list_all isSpace r"
    by (rule trim_split)
  have 3: "bare (trim s)" by (rule bare_trim)
  have 4: "0x3C \<notin> set (sanitizeInput (JStr s))" "0x3E \<notin> set (sanitizeInput (JStr s))"
    unfolding 1 by simp_all
  have 5: "bare (sanitizeInput (JStr s))"
    if "trim s \<noteq> [] \<and> hd (trim s) \<notin> {0x3C, 0x3E} \<and> last (trim s) \<notin> {0x3C, 0x3E}"
    unfolding 1 using that by (intro bare_filter bare_trim) simp_all
  from 1 2 3 4 5 show ?thesis by (simp only: JStr jsval.case) blast
qed simp_all

theorem sanitizeInput_trims_then_strips_witness:
  "sanitizeInput (JStr (lit '' <b>Jo</b> '')) = lit ''bJo/b''
   \<and> bare (sanitizeInput (JStr (lit '' a<i>b '')))
   \<and> sanitizeInput (JNum (lit ''42'')) = []"
proof -
  have t: "trim (lit '' a<i>b '') = lit ''a<i>b''"
    by (simp add: lit_def trim_def isSpace_def)
  have "bare (sanitizeInput (JStr (lit '' a<i>b '')))"
    using sanitizeInput_trims_then_strips [of "JStr (lit '' a<i>b '')"]
    by (simp add: t) (simp add: lit_def)
  moreover have "sanitizeInput (JNum (lit ''42'')) = []"
    using sanitizeInput_trims_then_strips [of "JNum (lit ''42'')"] by simp
  moreover have "sanitizeInput (JStr (lit '' <b>Jo</b> '')) = lit ''bJo/b''"
    by (simp add: lit_def trim_def isSpace_def)
  ultimately show ?thesis by simp
qed

text \<open>The result is not always trimmed: removing a bracket at an end of the trimmed input
  uncovers the white space next to it.\<close>

theorem sanitizeInput_output_not_trimmed:
  "sanitizeInput (JStr (lit ''< a >'')) = lit '' a ''
   \<and> \<not> bare (sanitizeInput (JStr (lit ''< a >'')))"
  by (simp add: lit_def trim_def isSpace_def bare_def)

text \<open>
  Claim C4, as amended. Sanitizing a sanitized string trims it and does nothing else, so
  the second application changes nothing when the first result has no white space at its
  ends, and a third application never changes anything.
\<close>

theorem sanitizeInput_twice:
  "sanitizeInput (JStr (sanitizeInput v)) = trim (sanitizeInput v)
   \<and> (bare (sanitizeInput v) \<longrightarrow> sanitizeInput (JStr (sanitizeInput v)) = sanitizeInput v)
   \<and> sanitizeInput (JStr (sanitizeInput (JStr (sanitizeInput v))))
       = sanitizeInput (JStr (sanitizeInput v))"
proof -
  have nb: "filter (\<lambda>c. c \<noteq> 0x3C \<and> c \<noteq> 0x3E) t = t"
    if "0x3C \<notin> set t" "0x3E \<notin> set t" for t :: jsstring
    using that by (induction t) auto
  have free: "0x3C \<notin> set (sanitizeInput v)" "0x3E \<notin> set (sanitizeInput v)"
    by (cases v; simp add: replaceAll_filter)+
  obtain l r where "sanitizeInput v = l @ trim (sanitizeInput v) @ r"
    using trim_split by blast
  then have "set (trim (sanitizeInput v)) \<subseteq> set (sanitizeInput v)"
    by (metis Un_upper1 Un_upper2 set_append subset_trans)
  with free have tfree: "0x3C \<notin> set (trim (sanitizeInput v))" "0x3E \<notin> set (trim (sanitizeInput v))"
    by auto
  have a: "sanitizeInput (JStr (sanitizeInput v)) = trim (sanitizeInput v)"
    unfolding sanitizeInput_filter using tfree by (rule nb)
  have b: "sanitizeInput (JStr (sanitizeInput v)) = sanitizeInput v" if "bare (sanitizeInput v)"
    using a that by (simp add: trim_bare)
  have "sanitizeInput (JStr (trim (sanitizeInput v))) = trim (sanitizeInput v)"
    unfolding sanitizeInput_filter trim_trim using tfree by (rule nb)
  with a have c: "sanitizeInput (JStr (sanitizeInput (JStr (sanitizeInput v))))
       = sanitizeInput (JStr (sanitizeInput v))" by simp
  from a b c show ?thesis by blast
qed

theorem sanitizeInput_twice_witness:
  "bare (sanitizeInput (JStr (lit '' <script> '')))
   \<and> sanitizeInput (JStr (sanitizeInput (JStr (lit '' <script> ''))))
       = sanitizeInput (JStr (lit '' <script> ''))"
proof -
  have s: "sanitizeInput (JStr (lit '' <script> '')) = lit ''script''"
    by (simp add: lit_def trim_def isSpace_def)
  have b: "bare (sanitizeInput (JStr (lit '' <script> '')))"
    unfolding s by (simp add: lit_def bare_def isSpace_def)
  with sanitizeInput_twice [of "JStr (lit '' <script> '')"] show ?thesis by blast
qed

text \<open>The second application does change the result of the first on \<^verbatim>\<open>"< a >"\<close>.\<close>

theorem sanitizeInput_not_idempotent:
  "sanitizeInput (JStr (lit ''< a >'')) = lit '' a ''
   \<and> sanitizeInput (JStr (sanitizeInput (JStr (lit ''< a >'')))) = lit ''a''
   \<and> sanitizeInput (JStr (sanitizeInput (JStr (lit ''< a >''))))
       \<noteq> sanitizeInput (JStr (lit ''< a >''))"
  by (simp add: lit_def trim_def isSpace_def)

text \<open>
  Claim C5. When \<^verbatim>\<open>sendEmail\<close> is called, the four required fields are truthy, the email
  has passed \<^verbatim>\<open>isValidEmail\<close>, and the text and HTML bodies are built from the fields as
  \<^verbatim>\<open>sanitizeInput\<close> returns them.
\<close>

theorem mail_only_after_validation:
  assumes "sent (post_send E sendEmail body) = Some m"
  shows "truthy (field body ''name'') \<and> truthy (field body ''email'')
     \<and> truthy (field body ''subject'') \<and> truthy (field body ''message'')
     \<and> isValidEmail (field body ''email'') = Inr True
     \<and> mail_text m = textBody (sanitized_of body) (now_text E)
     \<and> mail_html m = htmlBody (sanitized_of body) (now_html E)
     \<and> sanitized_of body =
         \<lparr> s_name = sanitizeInput (field body ''name''),
           s_email = sanitizeInput (field body ''email''),
           s_phone = (if truthy (field body ''phone'')
                      then sanitizeInput (field body ''phone'') else []),
           s_subject = sanitizeInput (field body ''subject''),
           s_message = sanitizeInput (field body ''message'') \<rparr>"
proof -
  from assms sent_only_validated [of E sendEmail body] have v: "validated body" by simp
  with assms have "m = mailOf E (sanitized_of body)"
    by (simp add: sent_validated)
  with v show ?thesis
    by (simp add: validated_def mailOf_def sanitized_of_def sanitize_def)
qed

theorem mail_only_after_validation_witness:
  "sent (post_send exampleEnv (\<lambda>m. Resolved) scenarioD)
     = Some (mailOf exampleEnv (sanitized_of scenarioD))
   \<and> isValidEmail (field scenarioD ''email'') = Inr True
   \<and> s_name (sanitized_of scenarioD) = lit ''script''"
proof -
  have s: "sent (post_send exampleEnv (\<lambda>m. Resolved) scenarioD)
     = Some (mailOf exampleEnv (sanitized_of scenarioD))"
    by (rule sent_validated [OF validated_scenarioD])
  have n: "sanitizeInput (field scenarioD ''name'') = lit ''script''"
    by (simp add: field_def scenarioD_def lit_def trim_def isSpace_def)
  from mail_only_after_validation [OF s] s n show ?thesis by simp
qed

text \<open>
  Claim C6. When \<^verbatim>\<open>sendEmail\<close> rejects, the answer is 500 with the authentication message
  if the error's \<^verbatim>\<open>code\<close> is \<^verbatim>\<open>"EAUTH"\<close>, and 500 with the try-again message otherwise;
  nothing else of the error reaches the response.
\<close>

theorem mail_failure_500:
  assumes "validated body" and "sendEmail (mailOf E (sanitized_of body)) = Rejected err"
  shows "reply (post_send E sendEmail body) =
     \<lparr> res_status = 500, res_success = False,
       res_message =
         (if map_of err (lit ''code'') = Some (JStr (lit ''EAUTH''))
          then lit ''Authentication failed. Please check email credentials.''
          else lit ''Email sending failed. Please try again later.'') \<rparr>"
  using assms(2)
  by (auto simp: post_send_validated [OF assms(1)] catchBlock_def errorCode_def
      split: option.splits)

theorem mail_failure_500_witness:
  "reply (post_send exampleEnv (\<lambda>m. Rejected authError) scenarioA) =
     \<lparr> res_status = 500, res_success = False,
       res_message = lit ''Authentication failed. Please check email credentials.'' \<rparr>
   \<and> reply (post_send exampleEnv (\<lambda>m. Rejected connectionError) scenarioA) =
     \<lparr> res_status = 500, res_success = False,
       res_message = lit ''Email sending failed. Please try again later.'' \<rparr>"
proof -
  have a: "map_of authError (lit ''code'') = Some (JStr (lit ''EAUTH''))"
    by (simp add: authError_def lit_def)
  have c: "map_of connectionError (lit ''code'') \<noteq> Some (JStr (lit ''EAUTH''))"
    by (simp add: connectionError_def lit_def)
  from a c
    mail_failure_500 [OF validated_scenarioA, of "\<lambda>m. Rejected authError" exampleEnv authError]
    mail_failure_500 [OF validated_scenarioA, of "\<lambda>m. Rejected connectionError" exampleEnv
      connectionError]
  show ?thesis by simp
qed

text \<open>
  Claim C7. When \<^verbatim>\<open>sendEmail\<close> resolves for a validated request, the answer is 200 with
  \<^verbatim>\<open>{success: true, message: "Email sent successfully"}\<close>.
\<close>

theorem mail_success_200:
  assumes "validated body" and "sendEmail (mailOf E (sanitized_of body)) = Resolved"
  shows "reply (post_send E sendEmail body) =
     \<lparr> res_status = 200, res_success = True, res_message = lit ''Email sent successfully'' \<rparr>"
  using assms(2) by (simp add: post_send_validated [OF assms(1)] emailSent_def)

theorem mail_success_200_witness:
  "reply (post_send exampleEnv (\<lambda>m. Resolved) scenarioA) =
     \<lparr> res_status = 200, res_success = True, res_message = lit ''Email sent successfully'' \<rparr>"
  using mail_success_200 [OF validated_scenarioA, of "\<lambda>m. Resolved" exampleEnv] by simp

text \<open>
  Claim C8. For a validated request \<^verbatim>\<open>sendEmail\<close> is called with
  \<^verbatim>\<open>process.env.EMAIL_USER\<close> as the recipient and with the fixed label followed by the
  sanitized subject as the subject. For scenario A the recipient is the configured one,
  the subject contains \<^verbatim>\<open>Hi\<close> and the text body contains \<^verbatim>\<open>Jo\<close>.
\<close>

theorem mail_recipient_and_subject:
  "(validated body \<longrightarrow>
      (\<exists>m. sent (post_send E sendEmail body) = Some m
          \<and> mail_to m = EMAIL_USER E
          \<and> mail_subject m
              = lit ''Customer Form Apllication: '' @ sanitizeInput (field body ''subject'')))
   \<and> (\<exists>m. sent (post_send E sendEmail scenarioA) = Some m
          \<and> mail_to m = EMAIL_USER E
          \<and> sublist (lit ''Hi'') (mail_subject m)
          \<and> sublist (lit ''Jo'') (mail_text m))"
proof -
  have 1: "\<exists>m. sent (post_send E sendEmail body) = Some m
          \<and> mail_to m = EMAIL_USER E
          \<and> mail_subject m
              = lit ''Customer Form Apllication: '' @ sanitizeInput (field body ''subject'')"
    if "validated body"
    using that by (simp add: sent_validated mailOf_def sanitized_of_def sanitize_def)
  have s: "sanitizeInput (field scenarioA ''subject'') = lit ''Hi''"
    "sanitizeInput (field scenarioA ''name'') = lit ''Jo''"
    by (simp_all add: field_def scenarioA_def lit_def trim_def isSpace_def)
  have sub: "sublist (lit ''Hi'') (mail_subject (mailOf E (sanitized_of scenarioA)))"
    unfolding sublist_def
    by (rule exI [of _ "lit ''Customer Form Apllication: ''"], rule exI [of _ "[]"])
      (simp add: mailOf_def sanitized_of_def sanitize_def s)
  have inText: "sublist (lit ''Jo'') (mail_text (mailOf E (sanitized_of scenarioA)))"
    unfolding sublist_def
    by (rule exI [of _ "lit ''\<newline>Contact Form Submission\<newline>\<newline>Name: ''"])
      (simp add: mailOf_def textBody_def sanitized_of_def sanitize_def s)
  have 2: "\<exists>m. sent (post_send E sendEmail scenarioA) = Some m
          \<and> mail_to m = EMAIL_USER E
          \<and> sublist (lit ''Hi'') (mail_subject m)
          \<and> sublist (lit ''Jo'') (mail_text m)"
    using sub inText by (simp add: sent_validated [OF validated_scenarioA]) (simp add: mailOf_def)
  from 1 2 show ?thesis by blast
qed

theorem mail_recipient_and_subject_witness:
  "\<exists>m. sent (post_send exampleEnv (\<lambda>m. Resolved) scenarioD) = Some m
      \<and> mail_to m = JStr (lit ''owner@example.org'')
      \<and> mail_subject m = lit ''Customer Form Apllication: s''"
proof -
  have s: "sanitizeInput (field scenarioD ''subject'') = lit ''s''"
    by (simp add: field_def scenarioD_def lit_def trim_def isSpace_def)
  from validated_scenarioD s
    mail_recipient_and_subject [of scenarioD exampleEnv "\<lambda>m. Resolved"]
  show ?thesis by (simp add: exampleEnv_def lit_def)
qed

text \<open>
  Claim C9, as amended. A required field that is a non-empty string of white space only
  is truthy, so it passes the required-field check, and it sanitizes to the empty string.
  When the field is \<^verbatim>\<open>name\<close>, \<^verbatim>\<open>subject\<close> or \<^verbatim>\<open>message\<close>, the mail of an otherwise
  valid request is then sent with that field empty. When it is \<^verbatim>\<open>email\<close>, the format
  check fails: the answer is 400 with \<^verbatim>\<open>Invalid email format.\<close> and nothing is sent.
\<close>

theorem blank_required_field:
  assumes "s \<noteq> []" and "list_all isSpace s"
  shows "truthy (JStr s) \<and> sanitizeInput (JStr s) = []
     \<and> (validated body \<and> field body ''name'' = JStr s \<longrightarrow>
          sent (post_send E sendEmail body) = Some (mailOf E (sanitized_of body))
          \<and> s_name (sanitized_of body) = [])
     \<and> (validated body \<and> field body ''subject'' = JStr s \<longrightarrow>
          sent (post_send E sendEmail body) = Some (mailOf E (sanitized_of body))
          \<and> s_subject (sanitized_of body) = [])
     \<and> (validated body \<and> field body ''message'' = JStr s \<longrightarrow>
          sent (post_send E sendEmail body) = Some (mailOf E (sanitized_of body))
          \<and> s_message (sanitized_of body) = [])
     \<and> (truthy (field body ''name'') \<and> truthy (field body ''subject'')
          \<and> truthy (field body ''message'') \<and> field body ''email'' = JStr s \<longrightarrow>
          post_send E sendEmail body =
            \<lparr> sent = None,
              reply = \<lparr> res_status = 400, res_success = False,
                        res_message = lit ''Invalid email format.'' \<rparr> \<rparr>)"
proof -
  from assms(1) have 1: "truthy (JStr s)" by simp
  from assms(2) have 2: "sanitizeInput (JStr s) = []" by (simp add: trim_blank)
  from assms(2) have 3: "isValidEmail (JStr s) = Inr False"
    by (simp add: isValidEmail_ToString blank_not_email_shape)
  have 4: "post_send E sendEmail body = \<lparr> sent = None, reply = invalidEmail \<rparr>"
    if t: "truthy (field body ''name'')" "truthy (field body ''subject'')"
      "truthy (field body ''message'')" and e: "field body ''email'' = JStr s"
  proof -
    from 1 e have te: "truthy (field body ''email'')" by simp
    show ?thesis
      by (simp add: post_send_present [OF t(1) te t(2,3)] e 3)
  qed
  from 1 2 4 show ?thesis
    by (simp add: sent_validated sanitized_of_def sanitize_def invalidEmail_def)
qed

theorem blank_required_field_witness:
  "truthy (field blankName ''name'')
   \<and> sent (post_send exampleEnv (\<lambda>m. Resolved) blankName)
       = Some (mailOf exampleEnv (sanitized_of blankName))
   \<and> s_name (sanitized_of blankName) = []
   \<and> reply (post_send exampleEnv (\<lambda>m. Resolved) blankName) = emailSent"
proof -
  have n: "field blankName ''name'' = JStr (lit '' '')"
    by (simp add: field_def blankName_def lit_def)
  have b: "lit '' '' \<noteq> []" "list_all isSpace (lit '' '')"
    by (simp_all add: lit_def isSpace_def)
  have r: "reply (post_send exampleEnv (\<lambda>m. Resolved) blankName) = emailSent"
    by (simp add: post_send_validated [OF validated_blankName])
  from n r validated_blankName
    blank_required_field [OF b, of blankName exampleEnv "\<lambda>m. Resolved"]
  show ?thesis by simp
qed

text \<open>A blank \<^verbatim>\<open>email\<close> passes the required-field check, and no mail is sent.\<close>

theorem blank_email_not_sent:
  "truthy (field blankEmail ''name'') \<and> truthy (field blankEmail ''email'')
   \<and> truthy (field blankEmail ''subject'') \<and> truthy (field blankEmail ''message'')
   \<and> field blankEmail ''email'' = JStr (lit '' '')
   \<and> post_send exampleEnv (\<lambda>m. Resolved) blankEmail =
       \<lparr> sent = None,
         reply = \<lparr> res_status = 400, res_success = False,
                   res_message = lit ''Invalid email format.'' \<rparr> \<rparr>"
  by (simp add: field_def blankEmail_def post_send_def destructure_def andThen_def
      isValidEmail_def test_def emailRegex_def Plus_def invalidEmail_def lit_def isSpace_def)

text \<open>
  Claim C10. The validator accepts \<^verbatim>\<open><>a@b.c\<close> and \<^verbatim>\<open><>@b.c\<close>, and the sanitizer
  changes both. The bodies of the mail carry the sanitized form, which for \<^verbatim>\<open><>@b.c\<close>
  is \<^verbatim>\<open>@b.c\<close> and no longer has the shape of an email.
\<close>

theorem accepted_email_changed_by_sanitizer:
  "isValidEmail (JStr (lit ''<>a@b.c'')) = Inr True
   \<and> sanitizeInput (JStr (lit ''<>a@b.c'')) = lit ''a@b.c''
   \<and> sanitizeInput (JStr (lit ''<>a@b.c'')) \<noteq> lit ''<>a@b.c''
   \<and> isValidEmail (JStr (lit ''<>@b.c'')) = Inr True
   \<and> sanitizeInput (JStr (lit ''<>@b.c'')) = lit ''@b.c''
   \<and> isValidEmail (JStr (sanitizeInput (JStr (lit ''<>@b.c'')))) = Inr False
   \<and> \<not> email_shape (sanitizeInput (JStr (lit ''<>@b.c'')))
   \<and> (\<exists>m. sent (post_send exampleEnv (\<lambda>m. Resolved) bracketEmail) = Some m
         \<and> sublist (lit ''\<newline>Email: @b.c\<newline>'') (mail_text m)
         \<and> sublist (lit ''<p><strong>Email:</strong> @b.c</p>'') (mail_html m))"
proof -
  have 1: "isValidEmail (JStr (lit ''<>a@b.c'')) = Inr True"
    by (simp add: isValidEmail_def test_def emailRegex_def Plus_def lit_def isSpace_def)
  have 2: "sanitizeInput (JStr (lit ''<>a@b.c'')) = lit ''a@b.c''"
    by (simp add: lit_def trim_def isSpace_def)
  have 3: "lit ''a@b.c'' \<noteq> lit ''<>a@b.c''"
    by (simp add: lit_def)
  have 4: "isValidEmail (JStr (lit ''<>@b.c'')) = Inr True"
    by (simp add: isValidEmail_def test_def emailRegex_def Plus_def lit_def isSpace_def)
  have 5: "sanitizeInput (JStr (lit ''<>@b.c'')) = lit ''@b.c''"
    by (simp add: lit_def trim_def isSpace_def)
  have 6: "isValidEmail (JStr (lit ''@b.c'')) = Inr False"
    by (simp add: isValidEmail_def test_def emailRegex_def Plus_def lit_def isSpace_def)
  then have 7: "\<not> email_shape (lit ''@b.c'')"
    by (simp add: isValidEmail_ToString)
  have d: "sanitized_of bracketEmail =
      \<lparr> s_name = lit ''Jo'', s_email = lit ''@b.c'', s_phone = [],
        s_subject = lit ''Hi'', s_message = lit ''Hello'' \<rparr>"
    by (simp add: sanitized_of_def sanitize_def field_def bracketEmail_def lit_def trim_def
        isSpace_def)
  have t: "sublist (lit ''\<newline>Email: @b.c\<newline>'')
      (mail_text (mailOf exampleEnv (sanitized_of bracketEmail)))"
    unfolding d sublist_def
    by (rule exI [of _ "lit ''\<newline>Contact Form Submission\<newline>\<newline>Name: Jo''"])
      (simp add: mailOf_def textBody_def lit_def)
  have h: "sublist (lit ''<p><strong>Email:</strong> @b.c</p>'')
      (mail_html (mailOf exampleEnv (sanitized_of bracketEmail)))"
    unfolding d sublist_def
    by (rule exI [of _ "lit ''\<newline>        <h2>Contact Form Submission</h2>\<newline>        <p><strong>Name:</strong> Jo</p>\<newline>        ''"])
      (simp add: mailOf_def htmlBody_def lit_def)
  from t h have 8: "\<exists>m. sent (post_send exampleEnv (\<lambda>m. Resolved) bracketEmail) = Some m
         \<and> sublist (lit ''\<newline>Email: @b.c\<newline>'') (mail_text m)
         \<and> sublist (lit ''<p><strong>Email:</strong> @b.c</p>'') (mail_html m)"
    by (simp add: sent_validated [OF validated_bracketEmail])
  from 1 2 3 4 5 6 7 8 show ?thesis by (simp only: simp_thms)
qed

theorem accepted_email_changed_by_sanitizer_witness:
  "isValidEmail (JStr (lit ''<>@b.c'')) = Inr True
   \<and> sanitizeInput (JStr (lit ''<>@b.c'')) = lit ''@b.c''"
  using accepted_email_changed_by_sanitizer by blast

end
